theory Spec2Isabelle
  imports Complex_Main "HOL-Library.Multiset"
begin

text \<open>
  A model of the pull-request report of github-stats: the script src/index.js and its
  earlier variant src/unnamed/part_000. The response of the GitHub API, the clock and the
  environment are parameters; the date filter, the reductions over the filtered pull
  requests, the log blocks and the order in which \<open>main\<close> prints or fails are
  those of the scripts.
\<close>

section \<open>JavaScript numbers\<close>

text \<open>
  Timestamps are milliseconds since the epoch and open durations are differences of
  timestamps, so every number the program computes is an integer, a quotient of
  integers, or \<open>NaN\<close> (from \<open>0 / 0\<close> and from arithmetic on \<open>undefined\<close>).
  Quotients are kept exact.
\<close>

datatype jsnumber = Num rat | NaN

fun plus_js :: "jsnumber \<Rightarrow> jsnumber \<Rightarrow> jsnumber" where
  "plus_js (Num a) (Num b) = Num (a + b)"
| "plus_js _ _ = NaN"

text \<open>Division by the literal \<open>2.0\<close>.\<close>

fun half_js :: "jsnumber \<Rightarrow> jsnumber" where
  "half_js (Num a) = Num (a / 2)"
| "half_js NaN = NaN"

text \<open>
  \<open>values[i]\<close> used as an operand: a read outside the array gives \<open>undefined\<close>,
  which arithmetic turns into \<open>NaN\<close>.
\<close>

definition elem_at :: "int list \<Rightarrow> int \<Rightarrow> jsnumber" where
  "elem_at values i =
     (if 0 \<le> i \<and> i < int (length values) then Num (of_int (values ! nat i)) else NaN)"

section \<open>median (src/index.js, lines 15-24)\<close>

text \<open>
  \<open>values.sort\<close> with the comparator \<open>a - b\<close> sorts the argument array in
  place, ascending; the function returns the median and leaves the caller's array
  sorted. The model returns both: the array after the call and the result.
\<close>

definition median :: "int list \<Rightarrow> int list \<times> jsnumber" where
  "median values =
     (let values = sort values;
          half = int (length values) div 2
      in (values,
          if length values mod 2 \<noteq> 0 then elem_at values half
          else half_js (plus_js (elem_at values (half - 1)) (elem_at values half))))"


section \<open>Data received from the API\<close>

text \<open>
  A node of the GraphQL response, with the fields the query asks for. Timestamps are
  the instants the ISO strings denote, in milliseconds; \<open>parse\<close> and
  \<open>new Date\<close> are the identity on them.
\<close>

datatype pr_state = MERGED | OPEN | CLOSED

record actor =
  login :: string

record pull_request =
  number :: int
  author :: actor
  state :: pr_state
  mergedAt :: int
  createdAt :: int
  title :: string
  changedFiles :: int

text \<open>\<open>new Date(pr.mergedAt) - new Date(pr.createdAt)\<close>, in milliseconds.\<close>

definition openTimeOf :: "'a pull_request_scheme \<Rightarrow> int" where
  "openTimeOf pr = mergedAt pr - createdAt pr"

text \<open>The object \<open>{...pr, openTime}\<close> of src/index.js, line 202.\<close>

record tagged_pr = pull_request +
  openTime :: int

definition tag :: "pull_request \<Rightarrow> tagged_pr" where
  "tag pr =
     \<lparr>number = number pr, author = author pr, state = state pr, mergedAt = mergedAt pr,
      createdAt = createdAt pr, title = title pr, changedFiles = changedFiles pr,
      openTime = openTimeOf pr\<rparr>"

section \<open>Errors\<close>

text \<open>
  The error kinds the specification names, and the \<open>TypeError\<close> the runtime throws
  when a property is read from \<open>null\<close> or \<open>undefined\<close> (it carries the name of
  the property). The program itself constructs no error.
\<close>

datatype error =
  NetworkError | AuthError | EmptyDatasetError | MalformedDataError | TypeError string

section \<open>Command line and request headers (src/index.js, lines 52-73)\<close>

text \<open>
  \<open>token\<close> is \<open>None\<close> when the flag \<open>--token\<close> is absent. The environment
  maps variable names to their values.
\<close>

record args =
  repoOwner :: string
  repoName :: string
  baseBranch :: string
  startDate :: int
  endDate :: int
  token :: "string option"

text \<open>
  The module-level constants: \<open>token\<close> (line 64, here \<open>envToken\<close>) and
  \<open>headers\<close> (lines 66-69), a list of header name and value. A string is truthy
  when it is not empty.
\<close>

record client_setup =
  envToken :: "string option"
  headers :: "(string \<times> string) list"

definition clientSetup :: "(string \<rightharpoonup> string) \<Rightarrow> args \<Rightarrow> client_setup" where
  "clientSetup env args =
     \<lparr>envToken = env ''GH_TOKEN'',
      headers = (case token args of
                   None \<Rightarrow> []
                 | Some t \<Rightarrow> if t \<noteq> [] then [(''Authorization'', ''Bearer '' @ t)] else [])\<rparr>"

section \<open>Date filter\<close>

text \<open>\<open>isBefore\<close> and \<open>isAfter\<close> of date-fns compare the two instants strictly.\<close>

definition isBefore :: "int \<Rightarrow> int \<Rightarrow> bool" where
  "isBefore date dateToCompare = (date < dateToCompare)"

definition isAfter :: "int \<Rightarrow> int \<Rightarrow> bool" where
  "isAfter date dateToCompare = (date > dateToCompare)"

text \<open>src/index.js, lines 106-109: the reference timestamp is \<open>mergedAt\<close>.\<close>

definition filterByMergedAt :: "int \<Rightarrow> int \<Rightarrow> pull_request list \<Rightarrow> pull_request list" where
  "filterByMergedAt startD endD nodes =
     filter (\<lambda>node. isBefore (mergedAt node) endD \<and> isAfter (mergedAt node) startD) nodes"

text \<open>The second variant, lines 65-68: the reference timestamp is \<open>createdAt\<close>.\<close>

definition filterByCreatedAt :: "int \<Rightarrow> int \<Rightarrow> pull_request list \<Rightarrow> pull_request list" where
  "filterByCreatedAt startD endD nodes =
     filter (\<lambda>node. isBefore (createdAt node) endD \<and> isAfter (createdAt node) startD) nodes"

section \<open>Plain objects used as dictionaries\<close>

text \<open>
  \<open>owners\<close> is an ordinary object, created by \<open>{}\<close>. Its own properties are kept
  in creation order. A read of a name that is not an own property goes to
  \<open>Object.prototype\<close>: it finds a function for the names below (the accessor
  \<open>__proto__\<close> returns the prototype object) and \<open>undefined\<close> otherwise.
\<close>

type_synonym object = "(string \<times> jsnumber) list"

datatype jsval = Undefined | Number jsnumber | Inherited

definition objectPrototype :: "string list" where
  "objectPrototype =
     [''constructor'', ''hasOwnProperty'', ''isPrototypeOf'', ''propertyIsEnumerable'',
      ''toLocaleString'', ''toString'', ''valueOf'', ''__defineGetter__'',
      ''__defineSetter__'', ''__lookupGetter__'', ''__lookupSetter__'', ''__proto__'']"

definition get :: "object \<Rightarrow> string \<Rightarrow> jsval" where
  "get obj k =
     (case map_of obj k of
        Some v \<Rightarrow> Number v
      | None \<Rightarrow> if k \<in> set objectPrototype then Inherited else Undefined)"

fun truthy :: "jsval \<Rightarrow> bool" where
  "truthy Undefined = False"
| "truthy (Number (Num n)) = (n \<noteq> 0)"
| "truthy (Number NaN) = False"
| "truthy Inherited = True"

fun toNumber :: "jsval \<Rightarrow> jsnumber" where
  "toNumber Undefined = NaN"
| "toNumber (Number n) = n"
| "toNumber Inherited = NaN"

text \<open>
  An assignment \<open>obj[k] = v\<close> of a number: it replaces the value of an own property
  in place and creates a new own property after the existing ones. The setter of
  \<open>__proto__\<close> ignores a value that is not an object.
\<close>

fun assign :: "object \<Rightarrow> string \<Rightarrow> jsnumber \<Rightarrow> object" where
  "assign [] k v = [(k, v)]"
| "assign ((k', v') # obj) k v = (if k' = k then (k, v) # obj else (k', v') # assign obj k v)"

definition put :: "object \<Rightarrow> string \<Rightarrow> jsnumber \<Rightarrow> object" where
  "put obj k v = (if k = ''__proto__'' then obj else assign obj k v)"

text \<open>
  The order of the own property keys: the array indices (canonical decimal strings of
  the integers below \<open>2^32 - 1\<close>) in ascending numeric order, then the other strings
  in creation order. \<open>keys\<close> and \<open>values\<close> of lodash/fp list the own enumerable
  properties in this order; \<open>entries\<close> is \<open>zip(keys(obj), values(obj))\<close>.
\<close>

definition isDigit :: "char \<Rightarrow> bool" where
  "isDigit c = (c \<in> set ''0123456789'')"

definition toNat :: "string \<Rightarrow> nat" where
  "toNat s = foldl (\<lambda>n c. 10 * n + (of_char c - 48)) 0 s"

definition isArrayIndex :: "string \<Rightarrow> bool" where
  "isArrayIndex s =
     (s \<noteq> [] \<and> list_all isDigit s \<and> (s = ''0'' \<or> hd s \<noteq> CHR ''0'') \<and> toNat s < 2 ^ 32 - 1)"

definition entries :: "object \<Rightarrow> (string \<times> jsnumber) list" where
  "entries obj =
     sort_key (\<lambda>(k, v). toNat k) (filter (\<lambda>(k, v). isArrayIndex k) obj)
     @ filter (\<lambda>(k, v). \<not> isArrayIndex k) obj"

definition keys :: "object \<Rightarrow> string list" where
  "keys obj = map fst (entries obj)"

definition values_of :: "object \<Rightarrow> jsnumber list" where
  "values_of obj = map snd (entries obj)"

section \<open>Statistics\<close>

text \<open>
  The reductions below are the same text in both variants (src/index.js, lines 137-145,
  152-167 and 179-183; the second variant, lines 80-88, 96-111 and 123-127).
  \<open>reduce\<close> with an initial value is a left fold.
\<close>

fun increment :: "jsnumber \<Rightarrow> jsnumber" where
  "increment (Num n) = Num (n + 1)"
| "increment NaN = NaN"

definition authors :: "pull_request list \<Rightarrow> object" where
  "authors prs =
     foldl (\<lambda>owners pr.
        let login = login (author pr)
        in if truthy (get owners login) then put owners login (increment (toNumber (get owners login)))
           else put owners login (Num 1)) [] prs"

text \<open>The accumulator starts as \<open>null\<close> (\<open>None\<close>); a pull request object is truthy.\<close>

definition shortest :: "pull_request list \<Rightarrow> pull_request option" where
  "shortest prs =
     foldl (\<lambda>a b.
        case a of
          None \<Rightarrow> Some b
        | Some a \<Rightarrow> if openTimeOf b < openTimeOf a then Some b else Some a) None prs"

definition longest :: "pull_request list \<Rightarrow> pull_request option" where
  "longest prs =
     foldl (\<lambda>a b.
        case a of
          None \<Rightarrow> Some b
        | Some a \<Rightarrow> if openTimeOf b > openTimeOf a then Some b else Some a) None prs"

definition total :: "pull_request list \<Rightarrow> int" where
  "total prs = foldl (\<lambda>a b. a + openTimeOf b) 0 prs"

text \<open>
  \<open>total / prs.length\<close>: the length is zero only for the empty list, where the
  total is zero too, and \<open>0 / 0\<close> is \<open>NaN\<close>.
\<close>

definition meanInMs :: "pull_request list \<Rightarrow> jsnumber" where
  "meanInMs prs =
     (if length prs = 0 then NaN else Num (of_int (total prs) / of_nat (length prs)))"

definition allTimes :: "pull_request list \<Rightarrow> int list" where
  "allTimes prs = map openTimeOf prs"

definition percentileVals :: "pull_request list \<Rightarrow> tagged_pr list" where
  "percentileVals prs = map tag prs"

text \<open>
  Modelled from the spec: the function \<open>percentile\<close> is the third-party package
  imported at src/index.js, line 3; its code is not part of the sources. The
  specification describes a nearest-rank percentile over the tagged list, whose result
  is an element of the list: the list is ordered ascending by the key \<open>fn\<close> and the
  element of rank \<open>\<lceil>n * p / 100\<rceil>\<close> (counted from 1) is returned. Where there is no
  such rank the result is \<open>undefined\<close> (\<open>None\<close>).
\<close>

definition percentile :: "nat \<Rightarrow> 'a list \<Rightarrow> ('a \<Rightarrow> int) \<Rightarrow> 'a option" where
  "percentile p list fn =
     (let sorted = sort_key fn list;
          kIndex = \<lceil>rat_of_nat (length list) * (rat_of_nat p / 100)\<rceil> - 1
      in if 0 \<le> kIndex \<and> kIndex < int (length list) then Some (sorted ! nat kIndex) else None)"

section \<open>Console output\<close>

text \<open>
  A line of output is the list of the arguments of one \<open>console.log\<close> call. The
  strings that date-fns produces are kept symbolic: \<open>Formatted d\<close> is
  \<open>format(d, 'YYYY-MM-DD')\<close>, \<open>DistanceInWords a b\<close> is
  \<open>distanceInWordsStrict(a, b)\<close>, \<open>DistanceInHours a b\<close> the same with
  \<open>{unit: 'h'}\<close>, and \<open>PrNumber n\<close> is the text \<open>(#n)\<close>. The argument
  \<open>`- ${distanceInWordsStrict(...)}`\<close> of the listing is the two cells
  \<open>Str ''-''\<close> and \<open>DistanceInWords\<close>. Colours and the spinner are left out.
\<close>

datatype cell =
  Str string | Numb jsnumber | Formatted int
  | DistanceInWords jsnumber jsnumber | DistanceInHours jsnumber jsnumber | PrNumber int

definition padEnd :: "nat \<Rightarrow> string \<Rightarrow> string" where
  "padEnd n s = s @ replicate (n - length s) CHR '' ''"

subsection \<open>logBlock (src/index.js, lines 26-50)\<close>

record logBlock =
  blockTitle :: string
  lines :: "(string \<times> cell list) list"
  emptyLines :: "cell list list"

definition newLogBlock :: "string \<Rightarrow> logBlock" where
  "newLogBlock t = \<lparr>blockTitle = t, lines = [], emptyLines = []\<rparr>"

definition log :: "logBlock \<Rightarrow> string \<Rightarrow> cell list \<Rightarrow> logBlock" where
  "log b name rest = b\<lparr>lines := lines b @ [(name, rest)]\<rparr>"

definition logEmpty :: "logBlock \<Rightarrow> cell list \<Rightarrow> logBlock" where
  "logEmpty b line = b\<lparr>emptyLines := emptyLines b @ [line]\<rparr>"

definition endBlock :: "logBlock \<Rightarrow> cell list list" where
  "endBlock b =
     (let maxLength = foldl (\<lambda>len (line, rest). if length line > len then length line else len)
                        0 (lines b)
      in [[Str ''''], [Str (blockTitle b @ '':'')]]
         @ map (\<lambda>(name, rest). [Str '' '', Str (padEnd maxLength name), Str ''=>''] @ rest) (lines b)
         @ map (\<lambda>line. Str '' '' # line) (emptyLines b)
         @ [[Str '''']])"

section \<open>Arrays of pull requests in the store\<close>

text \<open>
  The arrays of pull-request objects are held in a store, so that a method that builds a
  new array (\<open>filter\<close>, \<open>map\<close>: the result is allocated) is told apart from one
  that changes its receiver (\<open>sort\<close>). \<open>sort\<close> with the comparator \<open>aOpenTime - bOpenTime\<close> orders the
  receiver in place, ascending by open time and stable, and returns the receiver.
\<close>

type_synonym ref = nat

record heap =
  cells :: "ref \<Rightarrow> pull_request list"
  nextRef :: ref

definition emptyHeap :: heap where
  "emptyHeap = \<lparr>cells = (\<lambda>r. []), nextRef = 0\<rparr>"

definition alloc :: "heap \<Rightarrow> pull_request list \<Rightarrow> heap \<times> ref" where
  "alloc h xs = (h\<lparr>cells := (cells h)(nextRef h := xs), nextRef := Suc (nextRef h)\<rparr>, nextRef h)"

definition array_map :: "heap \<Rightarrow> ref \<Rightarrow> (pull_request \<Rightarrow> pull_request) \<Rightarrow> heap \<times> ref" where
  "array_map h r f = alloc h (map f (cells h r))"

definition array_sort :: "heap \<Rightarrow> ref \<Rightarrow> (pull_request \<Rightarrow> int) \<Rightarrow> heap \<times> ref" where
  "array_sort h r key = (h\<lparr>cells := (cells h)(r := sort_key key (cells h r))\<rparr>, r)"

section \<open>The report (src/index.js, lines 95-211)\<close>

text \<open>Lines 111-117.\<close>

definition infoBlock :: "args \<Rightarrow> nat \<Rightarrow> cell list list" where
  "infoBlock args n =
     (let infoBlock = newLogBlock ''Info'';
          infoBlock = log infoBlock ''Owner'' [Str (repoOwner args)];
          infoBlock = log infoBlock ''Repository name'' [Str (repoName args)];
          infoBlock = log infoBlock ''From'' [Formatted (startDate args)];
          infoBlock = log infoBlock ''To'' [Formatted (endDate args)];
          infoBlock = log infoBlock ''Total'' [Numb (Num (of_nat n))]
      in endBlock infoBlock)"

text \<open>
  Lines 119-134: \<open>f\<close> is the array that \<open>prs.map(a => a)\<close> creates, sorted in
  place; the listing (lines 126-134) is printed from \<open>f\<close>.
\<close>

definition listing :: "int \<Rightarrow> pull_request list \<Rightarrow> cell list list" where
  "listing now f =
     (let prBlock = newLogBlock ''Pull requests'';
          prBlock = foldl (\<lambda>b pr.
                      let openTime = openTimeOf pr
                      in logEmpty b [Str (title pr), Str ''-'',
                                     DistanceInWords (Num (of_int now)) (Num (of_int (now + openTime))),
                                     PrNumber (number pr)])
                    prBlock f
      in endBlock prBlock)"

definition prBlock :: "heap \<Rightarrow> ref \<Rightarrow> int \<Rightarrow> heap \<times> cell list list" where
  "prBlock h prs now =
     (let (h, copy) = array_map h prs (\<lambda>a. a);
          (h, f) = array_sort h copy openTimeOf
      in (h, listing now (cells h f)))"

text \<open>Lines 136-148.\<close>

definition authorBlock :: "pull_request list \<Rightarrow> cell list list" where
  "authorBlock prs =
     (let authorBlock = newLogBlock ''Count by author'';
          authors = authors prs;
          authorBlock = foldl (\<lambda>b (name, count). log b name [Numb count]) authorBlock
                          (zip (keys authors) (values_of authors))
      in endBlock authorBlock)"

text \<open>
  Lines 151-210. Reading \<open>createdAt\<close> of \<open>null\<close> (line 170 or 175) or
  \<open>openTime\<close> of \<open>undefined\<close> (line 207) throws; nothing of the block has been
  printed then, since \<open>end\<close> is the last call.
\<close>

definition mergeBlock :: "int \<Rightarrow> pull_request list \<Rightarrow> error + cell list list" where
  "mergeBlock now prs =
     (let mergeBlock = newLogBlock ''Time to merge'';
          firstShortest = shortest prs;
          firstLongest = longest prs
      in case firstShortest of
           None \<Rightarrow> Inl (TypeError ''createdAt'')
         | Some shortestPr \<Rightarrow>
        (let mergeBlock = log mergeBlock ''Shortest''
               [DistanceInWords (Num (of_int (createdAt shortestPr))) (Num (of_int (mergedAt shortestPr))),
                PrNumber (number shortestPr)]
         in case firstLongest of
              None \<Rightarrow> Inl (TypeError ''createdAt'')
            | Some longestPr \<Rightarrow>
           (let mergeBlock = log mergeBlock ''Longest''
                  [DistanceInWords (Num (of_int (createdAt longestPr))) (Num (of_int (mergedAt longestPr))),
                   PrNumber (number longestPr)];
                meanInMs = meanInMs prs;
                fut = plus_js (Num (of_int now)) meanInMs;
                mergeBlock = log mergeBlock ''Mean (days)'' [DistanceInWords (Num (of_int now)) fut];
                mergeBlock = log mergeBlock ''Mean (hours)'' [DistanceInHours (Num (of_int now)) fut];
                (sortedTimes, med) = median (allTimes prs);
                mergeBlock = log mergeBlock ''Median''
                  [DistanceInWords (Num (of_int now)) (plus_js (Num (of_int now)) med)];
                nearest = percentile 90 (percentileVals prs) openTime
            in case nearest of
                 None \<Rightarrow> Inl (TypeError ''openTime'')
               | Some p90 \<Rightarrow>
                   Inr (endBlock (log mergeBlock ''p90''
                     [DistanceInWords (Num (of_int now)) (Num (of_int (now + openTime p90))),
                      PrNumber (number p90)])))))"

text \<open>
  \<open>main\<close>: the response of the API is a parameter (the nodes, or the error the
  client rejects with). The result is the lines printed, the error \<open>main\<close> rejects
  with, if any, and the store at the end.
\<close>

record outcome =
  printed :: "cell list list"
  rejected :: "error option"
  store :: heap
  prsRef :: ref

definition main :: "args \<Rightarrow> int \<Rightarrow> error + pull_request list \<Rightarrow> outcome" where
  "main args now response =
     (case response of
        Inl e \<Rightarrow> \<lparr>printed = [], rejected = Some e, store = emptyHeap, prsRef = 0\<rparr>
      | Inr nodes \<Rightarrow>
     (let (h, nodesRef) = alloc emptyHeap nodes;
          (h, prs) = alloc h (filterByMergedAt (startDate args) (endDate args) (cells h nodesRef));
          out = infoBlock args (length (cells h prs));
          (h, listing) = prBlock h prs now;
          out = out @ listing;
          out = out @ authorBlock (cells h prs)
      in case mergeBlock now (cells h prs) of
           Inl e \<Rightarrow> \<lparr>printed = out, rejected = Some e, store = h, prsRef = prs\<rparr>
         | Inr timeToMerge \<Rightarrow>
             \<lparr>printed = out @ timeToMerge, rejected = None, store = h, prsRef = prs\<rparr>))"

text \<open>Line 213, \<open>main().catch(console.error)\<close>: the rejection is printed.\<close>

record run =
  stdout :: "cell list list"
  stderr :: "error list"

definition program :: "args \<Rightarrow> int \<Rightarrow> error + pull_request list \<Rightarrow> run" where
  "program args now response =
     (let r = main args now response
      in \<lparr>stdout = printed r,
          stderr = (case rejected r of None \<Rightarrow> [] | Some e \<Rightarrow> [e])\<rparr>)"

section \<open>The second variant (src/unnamed/part_000, lines 55-137)\<close>




section \<open>Example data\<close>

definition examplePr :: "int \<Rightarrow> string \<Rightarrow> int \<Rightarrow> int \<Rightarrow> pull_request" where
  "examplePr n a c m =
     \<lparr>number = n, author = \<lparr>login = a\<rparr>, state = MERGED, mergedAt = m, createdAt = c,
      title = ''PR'', changedFiles = 1\<rparr>"

definition exampleArgs :: "int \<Rightarrow> int \<Rightarrow> args" where
  "exampleArgs s e =
     \<lparr>repoOwner = ''wmonk'', repoName = ''github-stats'', baseBranch = ''master'',
      startDate = s, endDate = e, token = None\<rparr>"

section \<open>First occurrences\<close>

text \<open>
  The specification's order of the author rows, written from its words: the distinct
  elements of a list in the order in which each first occurs.
\<close>

definition firstOccurrences :: "'a list \<Rightarrow> 'a list" where
  "firstOccurrences xs = foldl (\<lambda>seen x. if x \<in> set seen then seen else seen @ [x]) [] xs"

section \<open>Properties of the reductions\<close>

lemma shortest_snoc:
  "shortest (prs @ [b]) =
     (case shortest prs of
        None \<Rightarrow> Some b
      | Some a \<Rightarrow> if openTimeOf b < openTimeOf a then Some b else Some a)"
  by (simp add: shortest_def)

lemma longest_snoc:
  "longest (prs @ [b]) =
     (case longest prs of
        None \<Rightarrow> Some b
      | Some a \<Rightarrow> if openTimeOf b > openTimeOf a then Some b else Some a)"
  by (simp add: longest_def)

lemma shortest_first_minimum:
  "prs \<noteq> [] \<Longrightarrow>
     \<exists>i<length prs. shortest prs = Some (prs ! i)
        \<and> (\<forall>j<length prs. openTimeOf (prs ! i) \<le> openTimeOf (prs ! j))
        \<and> (\<forall>j<i. openTimeOf (prs ! i) < openTimeOf (prs ! j))"
proof (induction prs rule: rev_nonempty_induct)
  case (single b)
  show ?case by (simp add: shortest_def)
next
  case (snoc b prs)
  then obtain i where i: "i < length prs" "shortest prs = Some (prs ! i)"
    and least: "\<forall>j<length prs. openTimeOf (prs ! i) \<le> openTimeOf (prs ! j)"
    and first: "\<forall>j<i. openTimeOf (prs ! i) < openTimeOf (prs ! j)"
    by blast
  show ?case
  proof (cases "openTimeOf b < openTimeOf (prs ! i)")
    case True
    have "\<forall>j<length prs. openTimeOf b < openTimeOf (prs ! j)"
      using True least by fastforce
    then have "\<forall>j<length (prs @ [b]). openTimeOf ((prs @ [b]) ! length prs) \<le> openTimeOf ((prs @ [b]) ! j)"
      "\<forall>j<length prs. openTimeOf ((prs @ [b]) ! length prs) < openTimeOf ((prs @ [b]) ! j)"
      by (auto simp: nth_append less_Suc_eq)
    moreover have "shortest (prs @ [b]) = Some ((prs @ [b]) ! length prs)"
      using True i by (simp add: shortest_snoc)
    ultimately show ?thesis
      by (intro exI [of _ "length prs"]) simp
  next
    case False
    then have "shortest (prs @ [b]) = Some ((prs @ [b]) ! i)"
      using i by (simp add: shortest_snoc nth_append)
    moreover have "\<forall>j<length (prs @ [b]). openTimeOf ((prs @ [b]) ! i) \<le> openTimeOf ((prs @ [b]) ! j)"
      using False least i by (auto simp: nth_append less_Suc_eq)
    moreover have "\<forall>j<i. openTimeOf ((prs @ [b]) ! i) < openTimeOf ((prs @ [b]) ! j)"
      using first i by (auto simp: nth_append)
    ultimately show ?thesis
      using i by (intro exI [of _ i]) simp
  qed
qed

lemma longest_first_maximum:
  "prs \<noteq> [] \<Longrightarrow>
     \<exists>i<length prs. longest prs = Some (prs ! i)
        \<and> (\<forall>j<length prs. openTimeOf (prs ! j) \<le> openTimeOf (prs ! i))
        \<and> (\<forall>j<i. openTimeOf (prs ! j) < openTimeOf (prs ! i))"
proof (induction prs rule: rev_nonempty_induct)
  case (single b)
  show ?case by (simp add: longest_def)
next
  case (snoc b prs)
  then obtain i where i: "i < length prs" "longest prs = Some (prs ! i)"
    and greatest: "\<forall>j<length prs. openTimeOf (prs ! j) \<le> openTimeOf (prs ! i)"
    and first: "\<forall>j<i. openTimeOf (prs ! j) < openTimeOf (prs ! i)"
    by blast
  show ?case
  proof (cases "openTimeOf b > openTimeOf (prs ! i)")
    case True
    have "\<forall>j<length prs. openTimeOf (prs ! j) < openTimeOf b"
      using True greatest by fastforce
    then have "\<forall>j<length (prs @ [b]). openTimeOf ((prs @ [b]) ! j) \<le> openTimeOf ((prs @ [b]) ! length prs)"
      "\<forall>j<length prs. openTimeOf ((prs @ [b]) ! j) < openTimeOf ((prs @ [b]) ! length prs)"
      by (auto simp: nth_append less_Suc_eq)
    moreover have "longest (prs @ [b]) = Some ((prs @ [b]) ! length prs)"
      using True i by (simp add: longest_snoc)
    ultimately show ?thesis
      by (intro exI [of _ "length prs"]) simp
  next
    case False
    then have "longest (prs @ [b]) = Some ((prs @ [b]) ! i)"
      using i by (simp add: longest_snoc nth_append)
    moreover have "\<forall>j<length (prs @ [b]). openTimeOf ((prs @ [b]) ! j) \<le> openTimeOf ((prs @ [b]) ! i)"
      using False greatest i by (auto simp: nth_append less_Suc_eq)
    moreover have "\<forall>j<i. openTimeOf ((prs @ [b]) ! j) < openTimeOf ((prs @ [b]) ! i)"
      using first i by (auto simp: nth_append)
    ultimately show ?thesis
      using i by (intro exI [of _ i]) simp
  qed
qed


lemma longest_Nil: "longest [] = None"
  by (simp add: longest_def)


section \<open>Properties of the report\<close>

lemma prBlock_eq:
  "prBlock h prs now =
     (h\<lparr>cells := (cells h)(nextRef h := sort_key openTimeOf (cells h prs)),
         nextRef := Suc (nextRef h)\<rparr>,
      listing now (sort_key openTimeOf (cells h prs)))"
  by (simp add: prBlock_def array_map_def array_sort_def alloc_def Let_def)

lemma main_store:
  "cells (store (main args now (Inr nodes))) (prsRef (main args now (Inr nodes)))
     = filterByMergedAt (startDate args) (endDate args) nodes"
  "cells (store (main args now (Inr nodes))) (Suc (prsRef (main args now (Inr nodes))))
     = sort_key openTimeOf (filterByMergedAt (startDate args) (endDate args) nodes)"
  by (simp_all add: main_def alloc_def emptyHeap_def Let_def prBlock_eq split: sum.splits)

lemma main_printed:
  "printed (main args now (Inr nodes)) =
     (let prs = filterByMergedAt (startDate args) (endDate args) nodes
      in infoBlock args (length prs) @ listing now (sort_key openTimeOf prs) @ authorBlock prs
         @ (case mergeBlock now prs of Inl e \<Rightarrow> [] | Inr timeToMerge \<Rightarrow> timeToMerge))"
  by (simp add: main_def alloc_def emptyHeap_def Let_def prBlock_eq split: sum.splits)

lemma main_rejected:
  "rejected (main args now (Inr nodes)) =
     (case mergeBlock now (filterByMergedAt (startDate args) (endDate args) nodes) of
        Inl e \<Rightarrow> Some e | Inr timeToMerge \<Rightarrow> None)"
  by (simp add: main_def alloc_def emptyHeap_def Let_def prBlock_eq split: sum.splits)

lemma percentile_90_member:
  assumes "list \<noteq> []"
  shows "\<exists>x\<in>set list. percentile 90 list fn = Some x"
proof -
  define n where "n = length list"
  define k where "k = \<lceil>rat_of_nat n * (rat_of_nat 90 / 100)\<rceil> - 1"
  have n: "0 < n" using assms by (simp add: n_def)
  have "0 < rat_of_nat n * (rat_of_nat 90 / 100)" using n by simp
  then have lo: "0 < \<lceil>rat_of_nat n * (rat_of_nat 90 / 100)\<rceil>"
    by (simp only: less_ceiling_iff of_int_0)
  have "rat_of_nat n * (rat_of_nat 90 / 100) \<le> rat_of_nat n" by simp
  then have "\<lceil>rat_of_nat n * (rat_of_nat 90 / 100)\<rceil> \<le> \<lceil>rat_of_nat n\<rceil>"
    by (rule ceiling_mono)
  then have hi: "\<lceil>rat_of_nat n * (rat_of_nat 90 / 100)\<rceil> \<le> int n" by simp
  have k: "0 \<le> k" "k < int n" using lo hi by (auto simp: k_def)
  then have "nat k < length (sort_key fn list)" by (simp add: n_def)
  then have "sort_key fn list ! nat k \<in> set (sort_key fn list)"
    by (rule nth_mem)
  then have "sort_key fn list ! nat k \<in> set list" by simp
  moreover have "percentile 90 list fn = Some (sort_key fn list ! nat k)"
    using k unfolding percentile_def Let_def k_def n_def by simp
  ultimately show ?thesis by blast
qed

lemma percentile_90_rank:
  assumes "percentile 90 list fn = Some x"
  shows "9 * length list \<le> 10 * length (filter (\<lambda>y. fn y \<le> fn x) list)"
proof -
  define n where "n = length list"
  define s where "s = sort_key fn list"
  define k where "k = \<lceil>rat_of_nat n * (rat_of_nat 90 / 100)\<rceil> - 1"
  have k: "0 \<le> k" "k < int n" and x: "x = s ! nat k"
    using assms unfolding percentile_def Let_def k_def n_def s_def
    by (auto split: if_splits)
  define m where "m = nat k"
  have m: "m < length s" using k by (simp add: m_def s_def n_def)
  have srt: "sorted (map fn s)" by (simp add: s_def)
  have le: "fn y \<le> fn x" if "y \<in> set (take (Suc m) s)" for y
  proof -
    from that obtain i where i: "i < Suc m" "y = s ! i"
      using m by (auto simp: in_set_conv_nth)
    then have "map fn s ! i \<le> map fn s ! m"
      using srt m by (intro sorted_nth_mono) auto
    then show ?thesis using i m by (simp add: x m_def)
  qed
  have "filter (\<lambda>y. fn y \<le> fn x) (take (Suc m) s) = take (Suc m) s"
    using le by (simp add: filter_id_conv)
  then have "length (filter (\<lambda>y. fn y \<le> fn x) (take (Suc m) s)) = Suc m"
    using m by simp
  moreover have "filter (\<lambda>y. fn y \<le> fn x) s =
      filter (\<lambda>y. fn y \<le> fn x) (take (Suc m) s) @ filter (\<lambda>y. fn y \<le> fn x) (drop (Suc m) s)"
    by (metis append_take_drop_id filter_append)
  ultimately have ge: "Suc m \<le> length (filter (\<lambda>y. fn y \<le> fn x) s)"
    by simp
  have "mset (filter (\<lambda>y. fn y \<le> fn x) s) = mset (filter (\<lambda>y. fn y \<le> fn x) list)"
    by (simp add: s_def)
  then have eq: "length (filter (\<lambda>y. fn y \<le> fn x) s) = length (filter (\<lambda>y. fn y \<le> fn x) list)"
    by (metis size_mset)
  have "rat_of_nat n * (rat_of_nat 90 / 100) \<le> of_int (k + 1)"
    unfolding k_def by (simp add: le_of_int_ceiling)
  then have "rat_of_nat (9 * n) \<le> rat_of_int (10 * (k + 1))" by simp
  then have "rat_of_int (int (9 * n)) \<le> rat_of_int (10 * (k + 1))" by simp
  then have "int (9 * n) \<le> 10 * (k + 1)" by (simp only: of_int_le_iff)
  then have "9 * n \<le> 10 * Suc m" using k by (simp add: m_def) 
  with ge eq show ?thesis by (simp add: n_def)
qed

lemma mergeBlock_nonempty:
  assumes "prs \<noteq> []"
  shows "\<exists>s l p. shortest prs = Some s \<and> longest prs = Some l
           \<and> p \<in> set prs \<and> percentile 90 (percentileVals prs) openTime = Some (tag p)
           \<and> mergeBlock now prs =
               Inr (endBlock
                 \<lparr>blockTitle = ''Time to merge'',
                  lines =
                    [(''Shortest'', [DistanceInWords (Num (of_int (createdAt s))) (Num (of_int (mergedAt s))),
                                    PrNumber (number s)]),
                     (''Longest'', [DistanceInWords (Num (of_int (createdAt l))) (Num (of_int (mergedAt l))),
                                   PrNumber (number l)]),
                     (''Mean (days)'', [DistanceInWords (Num (of_int now))
                                         (plus_js (Num (of_int now)) (meanInMs prs))]),
                     (''Mean (hours)'', [DistanceInHours (Num (of_int now))
                                          (plus_js (Num (of_int now)) (meanInMs prs))]),
                     (''Median'', [DistanceInWords (Num (of_int now))
                                    (plus_js (Num (of_int now)) (snd (median (allTimes prs))))]),
                     (''p90'', [DistanceInWords (Num (of_int now)) (Num (of_int (now + openTimeOf p))),
                               PrNumber (number p)])],
                  emptyLines = []\<rparr>)"
proof -
  obtain s where s: "shortest prs = Some s"
    using shortest_first_minimum [OF assms] by blast
  obtain l where l: "longest prs = Some l"
    using longest_first_maximum [OF assms] by blast
  have "percentileVals prs \<noteq> []" using assms by (simp add: percentileVals_def)
  then obtain t where t: "t \<in> set (percentileVals prs)"
      "percentile 90 (percentileVals prs) openTime = Some t"
    using percentile_90_member by blast
  then obtain p where p: "p \<in> set prs" "t = tag p"
    by (auto simp: percentileVals_def)
  have "mergeBlock now prs = Inr (endBlock
                 \<lparr>blockTitle = ''Time to merge'',
                  lines =
                    [(''Shortest'', [DistanceInWords (Num (of_int (createdAt s))) (Num (of_int (mergedAt s))),
                                    PrNumber (number s)]),
                     (''Longest'', [DistanceInWords (Num (of_int (createdAt l))) (Num (of_int (mergedAt l))),
                                   PrNumber (number l)]),
                     (''Mean (days)'', [DistanceInWords (Num (of_int now))
                                         (plus_js (Num (of_int now)) (meanInMs prs))]),
                     (''Mean (hours)'', [DistanceInHours (Num (of_int now))
                                          (plus_js (Num (of_int now)) (meanInMs prs))]),
                     (''Median'', [DistanceInWords (Num (of_int now))
                                    (plus_js (Num (of_int now)) (snd (median (allTimes prs))))]),
                     (''p90'', [DistanceInWords (Num (of_int now)) (Num (of_int (now + openTimeOf p))),
                               PrNumber (number p)])],
                  emptyLines = []\<rparr>)"
    using s l t(2) p(2)
    by (simp add: mergeBlock_def Let_def newLogBlock_def log_def split_def tag_def)
  with s l t p show ?thesis by blast
qed



lemma mergeBlock_lines:
  assumes "prs \<noteq> []"
  shows "\<exists>s l p. shortest prs = Some s \<and> longest prs = Some l
           \<and> p \<in> set prs \<and> percentile 90 (percentileVals prs) openTime = Some (tag p)
           \<and> mergeBlock now prs =
               Inr [[Str ''''], [Str ''Time to merge:''],
                    [Str '' '', Str ''Shortest    '', Str ''=>'',
                     DistanceInWords (Num (of_int (createdAt s))) (Num (of_int (mergedAt s))),
                     PrNumber (number s)],
                    [Str '' '', Str ''Longest     '', Str ''=>'',
                     DistanceInWords (Num (of_int (createdAt l))) (Num (of_int (mergedAt l))),
                     PrNumber (number l)],
                    [Str '' '', Str ''Mean (days) '', Str ''=>'',
                     DistanceInWords (Num (of_int now)) (plus_js (Num (of_int now)) (meanInMs prs))],
                    [Str '' '', Str ''Mean (hours)'', Str ''=>'',
                     DistanceInHours (Num (of_int now)) (plus_js (Num (of_int now)) (meanInMs prs))],
                    [Str '' '', Str ''Median      '', Str ''=>'',
                     DistanceInWords (Num (of_int now))
                       (plus_js (Num (of_int now)) (snd (median (allTimes prs))))],
                    [Str '' '', Str ''p90         '', Str ''=>'',
                     DistanceInWords (Num (of_int now)) (Num (of_int (now + openTimeOf p))),
                     PrNumber (number p)],
                    [Str '''']]"
proof -
  from mergeBlock_nonempty [OF assms, of now]
  obtain s l p where *: "shortest prs = Some s" "longest prs = Some l" "p \<in> set prs"
      "percentile 90 (percentileVals prs) openTime = Some (tag p)"
    and m: "mergeBlock now prs =
               Inr (endBlock
                 \<lparr>blockTitle = ''Time to merge'',
                  lines =
                    [(''Shortest'', [DistanceInWords (Num (of_int (createdAt s))) (Num (of_int (mergedAt s))),
                                    PrNumber (number s)]),
                     (''Longest'', [DistanceInWords (Num (of_int (createdAt l))) (Num (of_int (mergedAt l))),
                                   PrNumber (number l)]),
                     (''Mean (days)'', [DistanceInWords (Num (of_int now))
                                         (plus_js (Num (of_int now)) (meanInMs prs))]),
                     (''Mean (hours)'', [DistanceInHours (Num (of_int now))
                                          (plus_js (Num (of_int now)) (meanInMs prs))]),
                     (''Median'', [DistanceInWords (Num (of_int now))
                                    (plus_js (Num (of_int now)) (snd (median (allTimes prs))))]),
                     (''p90'', [DistanceInWords (Num (of_int now)) (Num (of_int (now + openTimeOf p))),
                               PrNumber (number p)])],
                  emptyLines = []\<rparr>)"
    by blast
  show ?thesis
    apply (rule exI [of _ s], rule exI [of _ l], rule exI [of _ p])
    apply (simp only: * m simp_thms)
    apply (simp add: endBlock_def padEnd_def)
    done
qed




section \<open>Properties of the author counts\<close>

lemma firstOccurrences_snoc:
  "firstOccurrences (xs @ [x]) =
     (if x \<in> set (firstOccurrences xs) then firstOccurrences xs else firstOccurrences xs @ [x])"
  by (simp add: firstOccurrences_def)

lemma set_firstOccurrences: "set (firstOccurrences xs) = set xs"
  by (induction xs rule: rev_induct) (auto simp: firstOccurrences_snoc firstOccurrences_def)

lemma distinct_firstOccurrences: "distinct (firstOccurrences xs)"
  by (induction xs rule: rev_induct) (auto simp: firstOccurrences_snoc firstOccurrences_def)

lemma map_of_tabulate:
  "map_of (map (\<lambda>k. (k, f k)) ks) l = (if l \<in> set ks then Some (f l) else None)"
  by (induction ks) auto

lemma assign_tabulate_new:
  "l \<notin> set ks \<Longrightarrow> assign (map (\<lambda>k. (k, f k)) ks) l v = map (\<lambda>k. (k, f k)) ks @ [(l, v)]"
  by (induction ks) auto

lemma assign_tabulate_old:
  "l \<in> set ks \<Longrightarrow> distinct ks \<Longrightarrow>
     assign (map (\<lambda>k. (k, f k)) ks) l v = map (\<lambda>k. (k, if k = l then v else f k)) ks"
  by (induction ks) auto

lemma authors_snoc:
  "authors (prs @ [pr]) =
     (let owners = authors prs; login = login (author pr)
      in if truthy (get owners login) then put owners login (increment (toNumber (get owners login)))
         else put owners login (Num 1))"
  by (simp add: authors_def Let_def)

lemma not_inherited_not_proto: "l \<notin> set objectPrototype \<Longrightarrow> l \<noteq> ''__proto__''"
  by (auto simp: objectPrototype_def)

lemma authors_tabulate:
  assumes "\<forall>pr\<in>set prs. login (author pr) \<notin> set objectPrototype"
  shows "authors prs =
           map (\<lambda>l. (l, Num (of_nat (count_list (map (\<lambda>pr. login (author pr)) prs) l))))
             (firstOccurrences (map (\<lambda>pr. login (author pr)) prs))"
  using assms
proof (induction prs rule: rev_induct)
  case Nil
  show ?case by (simp add: authors_def firstOccurrences_def)
next
  case (snoc pr prs)
  define ls where "ls = map (\<lambda>pr. login (author pr)) prs"
  define l where "l = login (author pr)"
  define cnt where "cnt = (\<lambda>k. Num (of_nat (count_list ls k)))"
  have IH: "authors prs = map (\<lambda>k. (k, cnt k)) (firstOccurrences ls)"
    using snoc by (simp add: ls_def cnt_def)
  have l: "l \<notin> set objectPrototype" "l \<noteq> ''__proto__''"
    using snoc.prems not_inherited_not_proto by (auto simp: l_def)
  have goal: "authors (prs @ [pr]) =
      map (\<lambda>k. (k, Num (of_nat (count_list (ls @ [l]) k)))) (firstOccurrences (ls @ [l]))"
  proof (cases "l \<in> set ls")
    case True
    then have "count_list ls l \<noteq> 0" by (simp only: count_list_0_iff simp_thms)
    then have pos: "0 < count_list ls l" by simp
    have g: "get (authors prs) l = Number (cnt l)"
      using True by (simp add: get_def IH map_of_tabulate set_firstOccurrences)
    have t: "truthy (get (authors prs) l)"
      using pos by (simp add: g cnt_def)
    have "authors (prs @ [pr]) = assign (authors prs) l (increment (cnt l))"
      using t l(2) by (simp add: authors_snoc Let_def l_def [symmetric] put_def g)
    also have "\<dots> = map (\<lambda>k. (k, if k = l then increment (cnt l) else cnt k)) (firstOccurrences ls)"
      using True by (simp add: IH assign_tabulate_old set_firstOccurrences distinct_firstOccurrences)
    also have "\<dots> = map (\<lambda>k. (k, Num (of_nat (count_list (ls @ [l]) k)))) (firstOccurrences ls)"
      by (rule map_cong) (auto simp: cnt_def)
    finally show ?thesis
      using True by (simp add: firstOccurrences_snoc set_firstOccurrences)
  next
    case False
    have g: "get (authors prs) l = Undefined"
      using False l(1) by (simp add: get_def IH map_of_tabulate set_firstOccurrences)
    have "authors (prs @ [pr]) = assign (authors prs) l (Num 1)"
      using l(2) by (simp add: authors_snoc Let_def l_def [symmetric] put_def g)
    also have "\<dots> = map (\<lambda>k. (k, cnt k)) (firstOccurrences ls) @ [(l, Num 1)]"
      using False by (simp add: IH assign_tabulate_new set_firstOccurrences)
    also have "\<dots> = map (\<lambda>k. (k, Num (of_nat (count_list (ls @ [l]) k)))) (firstOccurrences ls @ [l])"
      using False by (auto simp: cnt_def set_firstOccurrences)
    finally show ?thesis
      using False by (simp add: firstOccurrences_snoc set_firstOccurrences)
  qed
  then show ?case by (simp add: ls_def l_def)
qed

lemma insort_key_tabulate:
  "insort_key (\<lambda>(k, v). g k) (x, f x) (map (\<lambda>k. (k, f k)) ks)
     = map (\<lambda>k. (k, f k)) (insort_key g x ks)"
  by (induction ks) auto

lemma sort_key_tabulate:
  "sort_key (\<lambda>(k, v). g k) (map (\<lambda>k. (k, f k)) ks) = map (\<lambda>k. (k, f k)) (sort_key g ks)"
  by (induction ks) (simp_all add: insort_key_tabulate)

lemma filter_tabulate:
  "filter (\<lambda>(k, v). p k) (map (\<lambda>k. (k, f k)) ks) = map (\<lambda>k. (k, f k)) (filter p ks)"
  by (induction ks) auto

lemma entries_tabulate:
  "entries (map (\<lambda>k. (k, f k)) ks) =
     map (\<lambda>k. (k, f k)) (sort_key toNat (filter isArrayIndex ks) @ filter (\<lambda>k. \<not> isArrayIndex k) ks)"
  by (simp add: entries_def filter_tabulate sort_key_tabulate)

section \<open>Median\<close>

lemma median_of_sorted:
  assumes "values \<noteq> []" and "sorted ys" and "mset ys = mset values"
  shows "snd (median values) =
           (if odd (length values) then Num (of_int (ys ! (length values div 2)))
            else Num ((of_int (ys ! (length values div 2 - 1))
                       + of_int (ys ! (length values div 2))) / 2))"
proof -
  have ys: "sort values = ys"
    using assms(2,3) by (metis sorted_sort_id sort_key_id_if_sorted mset_sort properties_for_sort)
  have len: "length ys = length values"
    using assms(3) by (metis size_mset)
  have pos: "0 < length values" using assms(1) by simp
  show ?thesis
  proof (cases "odd (length values)")
    case True
    then have h: "length values div 2 < length values" using pos by simp
    have i2: "int (length values) div 2 = int (length values div 2)"
      by (simp add: zdiv_int)
    from True h show ?thesis
      unfolding median_def Let_def ys len elem_at_def i2
      by (simp add: odd_iff_mod_2_eq_one)
  next
    case False
    then have "length values \<noteq> 1" by auto
    with pos have n2: "2 \<le> length values" by arith
    then have h: "length values div 2 < length values" "1 \<le> length values div 2" by auto
    have i1: "nat (int (length values div 2) - 1) = length values div 2 - Suc 0"
      by arith
    have i2: "int (length values) div 2 = int (length values div 2)"
      by (simp add: zdiv_int)
    from False h show ?thesis
      unfolding median_def Let_def ys len elem_at_def i2
      by (simp add: even_iff_mod_2_eq_zero i1)
  qed
qed

lemma median_not_NaN: "values \<noteq> [] \<Longrightarrow> snd (median values) \<noteq> NaN"
  using median_of_sorted [of "values" "sort values"] by (simp split: if_splits)

text \<open>
  C2. For every non-empty list of open durations, \<open>median\<close> returns the middle
  element of the ascending-sorted list when the length is odd and the average of the two
  middle elements when it is even, where the sorted list is the ascending arrangement
  \<open>ys\<close> of the input; \<open>median [1,2,3] = 2\<close> and \<open>median [1,2,3,4] = 2.5\<close>.
\<close>

theorem median_sorted_middle:
  assumes "values \<noteq> []" and "sorted ys" and "mset ys = mset values"
  shows "snd (median values) =
           (if odd (length values) then Num (of_int (ys ! (length values div 2)))
            else Num ((of_int (ys ! (length values div 2 - 1))
                       + of_int (ys ! (length values div 2))) / 2))
         \<and> snd (median [1, 2, 3]) = Num 2
         \<and> snd (median [1, 2, 3, 4]) = Num (5 / 2)"
proof -
  have e1: "snd (median [1, 2, 3]) = Num 2"
    by (simp add: median_def Let_def elem_at_def)
  have e2: "snd (median [1, 2, 3, 4]) = Num (5 / 2)"
    by (simp add: median_def Let_def elem_at_def)
  from median_of_sorted [OF assms] e1 e2 show ?thesis by simp
qed

theorem median_sorted_middle_witness:
  "[3, 1, 2] \<noteq> ([] :: int list) \<and> sorted [1, 2, 3 :: int]
   \<and> mset [1, 2, 3 :: int] = mset [3, 1, 2]
   \<and> snd (median [3, 1, 2]) = Num 2"
  using median_sorted_middle [of "[3, 1, 2]" "[1, 2, 3]"] by simp

section \<open>Date filter\<close>

text \<open>
  C3. For every fetched list and every pair of dates, the date filter keeps exactly the
  pull requests whose reference timestamp (\<open>mergedAt\<close> in src/index.js,
  \<open>createdAt\<close> in the second variant) is strictly after the start date and strictly
  before the end date, in their order; a pull request whose reference timestamp equals
  either date is excluded.
\<close>

theorem date_filter_strictly_inside:
  "filterByMergedAt startD endD nodes
     = filter (\<lambda>pr. startD < mergedAt pr \<and> mergedAt pr < endD) nodes
   \<and> filterByCreatedAt startD endD nodes
     = filter (\<lambda>pr. startD < createdAt pr \<and> createdAt pr < endD) nodes
   \<and> (pr \<in> set (filterByMergedAt startD endD nodes)
        \<longleftrightarrow> pr \<in> set nodes \<and> startD < mergedAt pr \<and> mergedAt pr < endD)
   \<and> (pr \<in> set (filterByCreatedAt startD endD nodes)
        \<longleftrightarrow> pr \<in> set nodes \<and> startD < createdAt pr \<and> createdAt pr < endD)
   \<and> (mergedAt pr = startD \<or> mergedAt pr = endD
        \<longrightarrow> pr \<notin> set (filterByMergedAt startD endD nodes))
   \<and> (createdAt pr = startD \<or> createdAt pr = endD
        \<longrightarrow> pr \<notin> set (filterByCreatedAt startD endD nodes))"
proof -
  have m: "filterByMergedAt startD endD nodes
     = filter (\<lambda>pr. startD < mergedAt pr \<and> mergedAt pr < endD) nodes"
    unfolding filterByMergedAt_def isBefore_def isAfter_def by (rule filter_cong) auto
  have c: "filterByCreatedAt startD endD nodes
     = filter (\<lambda>pr. startD < createdAt pr \<and> createdAt pr < endD) nodes"
    unfolding filterByCreatedAt_def isBefore_def isAfter_def by (rule filter_cong) auto
  show ?thesis unfolding m c by auto
qed

theorem date_filter_strictly_inside_witness:
  "mergedAt (examplePr 1 ''a'' 0 10) = 10
   \<and> examplePr 1 ''a'' 0 10 \<notin> set (filterByMergedAt 10 20 [examplePr 1 ''a'' 0 10, examplePr 2 ''b'' 0 15])
   \<and> createdAt (examplePr 3 ''c'' 20 30) = 20
   \<and> examplePr 3 ''c'' 20 30 \<notin> set (filterByCreatedAt 10 20 [examplePr 3 ''c'' 20 30])
   \<and> filterByMergedAt 10 20 [examplePr 1 ''a'' 0 10, examplePr 2 ''b'' 0 15, examplePr 4 ''d'' 0 20]
       = [examplePr 2 ''b'' 0 15]"
  using date_filter_strictly_inside [of 10 20 "[examplePr 1 ''a'' 0 10, examplePr 2 ''b'' 0 15]"
          "examplePr 1 ''a'' 0 10"]
        date_filter_strictly_inside [of 10 20 "[examplePr 3 ''c'' 20 30]" "examplePr 3 ''c'' 20 30"]
        date_filter_strictly_inside [of 10 20
          "[examplePr 1 ''a'' 0 10, examplePr 2 ''b'' 0 15, examplePr 4 ''d'' 0 20]"]
  by (simp add: examplePr_def)

section \<open>Request headers\<close>

text \<open>
  C9. With the variable \<open>GH_TOKEN\<close> set in the environment and no \<open>--token\<close>
  flag, the program reads the variable into \<open>token\<close> and sends the request without an
  Authorization header: \<open>headers\<close> stays empty.
\<close>

theorem env_token_not_sent:
  "envToken (clientSetup [''GH_TOKEN'' \<mapsto> ''secret''] (exampleArgs 0 100)) = Some ''secret''
   \<and> token (exampleArgs 0 100) = None
   \<and> headers (clientSetup [''GH_TOKEN'' \<mapsto> ''secret''] (exampleArgs 0 100)) = []
   \<and> headers (clientSetup [''GH_TOKEN'' \<mapsto> ''secret''] ((exampleArgs 0 100)\<lparr>token := Some ''flag''\<rparr>))
       = [(''Authorization'', ''Bearer flag'')]"
  by (simp add: clientSetup_def exampleArgs_def)

section \<open>Shortest and longest\<close>

text \<open>
  C5. For every non-empty filtered list, \<open>shortest\<close> (respectively \<open>longest\<close>)
  returns a pull request of the list whose open duration \<open>mergedAt - createdAt\<close> is
  minimal (respectively maximal), and among several such the one that occurs first:
  every earlier pull request has a strictly greater (respectively smaller) duration.
\<close>

theorem shortest_longest_first_extreme:
  assumes "prs \<noteq> []"
  shows "(\<exists>i<length prs. shortest prs = Some (prs ! i)
            \<and> (\<forall>j<length prs. mergedAt (prs ! i) - createdAt (prs ! i)
                                \<le> mergedAt (prs ! j) - createdAt (prs ! j))
            \<and> (\<forall>j<i. mergedAt (prs ! i) - createdAt (prs ! i)
                       < mergedAt (prs ! j) - createdAt (prs ! j)))
         \<and> (\<exists>i<length prs. longest prs = Some (prs ! i)
            \<and> (\<forall>j<length prs. mergedAt (prs ! j) - createdAt (prs ! j)
                                \<le> mergedAt (prs ! i) - createdAt (prs ! i))
            \<and> (\<forall>j<i. mergedAt (prs ! j) - createdAt (prs ! j)
                       < mergedAt (prs ! i) - createdAt (prs ! i)))"
  using shortest_first_minimum [OF assms] longest_first_maximum [OF assms]
  unfolding openTimeOf_def by blast

theorem shortest_longest_first_extreme_witness:
  "[examplePr 1 ''a'' 100 105, examplePr 2 ''b'' 200 201, examplePr 3 ''c'' 10 19,
    examplePr 4 ''d'' 300 301] \<noteq> []
   \<and> map (\<lambda>pr. mergedAt pr - createdAt pr)
        [examplePr 1 ''a'' 100 105, examplePr 2 ''b'' 200 201, examplePr 3 ''c'' 10 19,
         examplePr 4 ''d'' 300 301] = [5, 1, 9, 1]
   \<and> shortest [examplePr 1 ''a'' 100 105, examplePr 2 ''b'' 200 201, examplePr 3 ''c'' 10 19,
                examplePr 4 ''d'' 300 301] = Some (examplePr 2 ''b'' 200 201)
   \<and> longest [examplePr 1 ''a'' 100 105, examplePr 2 ''b'' 200 201, examplePr 3 ''c'' 10 19,
               examplePr 4 ''d'' 300 301] = Some (examplePr 3 ''c'' 10 19)"
  using shortest_longest_first_extreme
          [of "[examplePr 1 ''a'' 100 105, examplePr 2 ''b'' 200 201, examplePr 3 ''c'' 10 19,
                examplePr 4 ''d'' 300 301]"]
  by (simp add: shortest_def longest_def openTimeOf_def examplePr_def)

section \<open>Empty window\<close>




section \<open>Statistics on a non-empty list\<close>

text \<open>
  C6. For every non-empty filtered list, whatever the signs of the open durations (no
  relation between \<open>mergedAt\<close> and \<open>createdAt\<close> is assumed), every statistic has a
  value: \<open>shortest\<close> and \<open>longest\<close> return a pull request, the mean and the median
  are numbers, the percentile returns an element, the Time to merge block is printed and
  \<open>main\<close> does not reject.
\<close>

theorem statistics_compute_on_nonempty:
  assumes "prs \<noteq> []"
  shows "(\<exists>timeToMerge. mergeBlock now prs = Inr timeToMerge)
         \<and> shortest prs \<noteq> None \<and> longest prs \<noteq> None
         \<and> meanInMs prs \<noteq> NaN \<and> snd (median (allTimes prs)) \<noteq> NaN
         \<and> percentile 90 (percentileVals prs) openTime \<noteq> None
         \<and> (prs = filterByMergedAt (startDate args) (endDate args) nodes \<longrightarrow>
              rejected (main args now (Inr nodes)) = None
              \<and> stderr (program args now (Inr nodes)) = [])"
proof -
  from mergeBlock_nonempty [OF assms, of now]
  obtain s l p t where *: "shortest prs = Some s" "longest prs = Some l"
      "percentile 90 (percentileVals prs) openTime = Some (tag p)"
      "mergeBlock now prs = Inr t"
    by blast
  have mean: "meanInMs prs \<noteq> NaN" using assms by (simp add: meanInMs_def)
  have "allTimes prs \<noteq> []" using assms by (simp add: allTimes_def)
  then have med: "snd (median (allTimes prs)) \<noteq> NaN" by (rule median_not_NaN)
  have "rejected (main args now (Inr nodes)) = None
        \<and> stderr (program args now (Inr nodes)) = []"
    if "prs = filterByMergedAt (startDate args) (endDate args) nodes"
    using that *(4) by (simp add: program_def Let_def main_rejected)
  with * mean med show ?thesis by simp
qed

theorem statistics_compute_on_nonempty_witness:
  "[examplePr 1 ''a'' 50 20, examplePr 2 ''b'' 10 30] \<noteq> []
   \<and> openTimeOf (examplePr 1 ''a'' 50 20) = - 30
   \<and> [examplePr 1 ''a'' 50 20, examplePr 2 ''b'' 10 30]
       = filterByMergedAt (startDate (exampleArgs 0 100)) (endDate (exampleArgs 0 100))
           [examplePr 1 ''a'' 50 20, examplePr 2 ''b'' 10 30]
   \<and> rejected (main (exampleArgs 0 100) 1000
                  (Inr [examplePr 1 ''a'' 50 20, examplePr 2 ''b'' 10 30])) = None
   \<and> shortest [examplePr 1 ''a'' 50 20, examplePr 2 ''b'' 10 30] \<noteq> None
   \<and> meanInMs [examplePr 1 ''a'' 50 20, examplePr 2 ''b'' 10 30] \<noteq> NaN"
  using statistics_compute_on_nonempty
          [of "[examplePr 1 ''a'' 50 20, examplePr 2 ''b'' 10 30]" 1000 "exampleArgs 0 100"
              "[examplePr 1 ''a'' 50 20, examplePr 2 ''b'' 10 30]"]
  by (simp add: filterByMergedAt_def isBefore_def isAfter_def openTimeOf_def
      exampleArgs_def examplePr_def)

section \<open>Mean\<close>



section \<open>90th percentile\<close>

text \<open>
  C8. For every non-empty filtered list, the percentile is computed over
  \<open>percentileVals\<close>, the pull requests in fetch order, each tagged with its open
  duration \<open>mergedAt - createdAt\<close>, with that tag as the key. Its result is one of the
  input pull requests with its own open duration as tag, at least nine tenths of the pull
  requests are open no longer than it, and the p90 line of the report carries its
  duration and its number.
\<close>

theorem p90_is_tagged_input_pr:
  assumes "prs \<noteq> []"
  shows "map openTime (percentileVals prs) = map (\<lambda>pr. mergedAt pr - createdAt pr) prs
         \<and> map number (percentileVals prs) = map number prs
         \<and> (\<exists>pr\<in>set prs.
              percentile 90 (percentileVals prs) openTime = Some (tag pr)
              \<and> openTime (tag pr) = mergedAt pr - createdAt pr \<and> number (tag pr) = number pr
              \<and> 9 * length prs
                  \<le> 10 * length (filter (\<lambda>q. mergedAt q - createdAt q \<le> mergedAt pr - createdAt pr) prs)
              \<and> (\<exists>timeToMerge. mergeBlock now prs = Inr timeToMerge
                   \<and> [Str '' '', Str ''p90         '', Str ''=>'',
                       DistanceInWords (Num (of_int now))
                         (Num (of_int (now + (mergedAt pr - createdAt pr)))),
                       PrNumber (number pr)] \<in> set timeToMerge))"
proof -
  from mergeBlock_lines [OF assms, of now]
  obtain p t where p: "p \<in> set prs" "percentile 90 (percentileVals prs) openTime = Some (tag p)"
    and t: "mergeBlock now prs = Inr t"
      "[Str '' '', Str ''p90         '', Str ''=>'',
        DistanceInWords (Num (of_int now)) (Num (of_int (now + openTimeOf p))),
        PrNumber (number p)] \<in> set t"
    by auto
  have tags: "map openTime (percentileVals prs) = map (\<lambda>pr. mergedAt pr - createdAt pr) prs"
    "map number (percentileVals prs) = map number prs"
    by (simp_all add: percentileVals_def tag_def openTimeOf_def)
  have tg: "openTime (tag p) = mergedAt p - createdAt p" "number (tag p) = number p"
    by (simp_all add: tag_def openTimeOf_def)
  have "9 * length (percentileVals prs)
          \<le> 10 * length (filter (\<lambda>y. openTime y \<le> openTime (tag p)) (percentileVals prs))"
    by (rule percentile_90_rank [OF p(2)])
  moreover have "length (filter (\<lambda>y. openTime y \<le> openTime (tag p)) (percentileVals prs))
      = length (filter (\<lambda>q. mergedAt q - createdAt q \<le> mergedAt p - createdAt p) prs)"
    by (simp add: percentileVals_def filter_map comp_def tag_def openTimeOf_def)
  ultimately have rank: "9 * length prs
      \<le> 10 * length (filter (\<lambda>q. mergedAt q - createdAt q \<le> mergedAt p - createdAt p) prs)"
    by (simp add: percentileVals_def)
  have line: "[Str '' '', Str ''p90         '', Str ''=>'',
        DistanceInWords (Num (of_int now)) (Num (of_int (now + (mergedAt p - createdAt p)))),
        PrNumber (number p)] \<in> set t"
    using t(2) by (simp only: openTimeOf_def)
  from p tg rank t(1) line have
    "\<exists>pr\<in>set prs.
              percentile 90 (percentileVals prs) openTime = Some (tag pr)
              \<and> openTime (tag pr) = mergedAt pr - createdAt pr \<and> number (tag pr) = number pr
              \<and> 9 * length prs
                  \<le> 10 * length (filter (\<lambda>q. mergedAt q - createdAt q \<le> mergedAt pr - createdAt pr) prs)
              \<and> (\<exists>timeToMerge. mergeBlock now prs = Inr timeToMerge
                   \<and> [Str '' '', Str ''p90         '', Str ''=>'',
                       DistanceInWords (Num (of_int now))
                         (Num (of_int (now + (mergedAt pr - createdAt pr)))),
                       PrNumber (number pr)] \<in> set timeToMerge)"
    by blast
  with tags show ?thesis by (intro conjI)
qed

theorem p90_is_tagged_input_pr_witness:
  "[examplePr 1 ''a'' 100 105, examplePr 2 ''b'' 200 201, examplePr 3 ''c'' 10 19,
    examplePr 4 ''d'' 300 301] \<noteq> []
   \<and> map openTime (percentileVals [examplePr 1 ''a'' 100 105, examplePr 2 ''b'' 200 201,
                                     examplePr 3 ''c'' 10 19, examplePr 4 ''d'' 300 301])
      = [5, 1, 9, 1]
   \<and> percentile 90
        (percentileVals [examplePr 1 ''a'' 100 105, examplePr 2 ''b'' 200 201,
                         examplePr 3 ''c'' 10 19, examplePr 4 ''d'' 300 301]) openTime
      = Some (tag (examplePr 3 ''c'' 10 19))
   \<and> openTime (tag (examplePr 3 ''c'' 10 19)) = 9
   \<and> number (tag (examplePr 3 ''c'' 10 19)) = 3"
proof -
  have k: "\<lceil>18 / 5 :: rat\<rceil> = 4" by (simp add: ceiling_eq_iff)
  have p: "percentile 90
        (percentileVals [examplePr 1 ''a'' 100 105, examplePr 2 ''b'' 200 201,
                         examplePr 3 ''c'' 10 19, examplePr 4 ''d'' 300 301]) openTime
      = Some (tag (examplePr 3 ''c'' 10 19))"
    by (simp add: percentile_def percentileVals_def tag_def openTimeOf_def examplePr_def Let_def k)
  have n: "number (tag (examplePr 3 ''c'' 10 19)) = 3" "openTime (tag (examplePr 3 ''c'' 10 19)) = 9"
    by (simp_all add: tag_def examplePr_def openTimeOf_def)
  have d: "map (\<lambda>pr. mergedAt pr - createdAt pr)
             [examplePr 1 ''a'' 100 105, examplePr 2 ''b'' 200 201,
              examplePr 3 ''c'' 10 19, examplePr 4 ''d'' 300 301] = [5, 1, 9, 1]"
    by (simp add: examplePr_def)
  have ne: "[examplePr 1 ''a'' 100 105, examplePr 2 ''b'' 200 201, examplePr 3 ''c'' 10 19,
             examplePr 4 ''d'' 300 301] \<noteq> []"
    by simp
  note t = p90_is_tagged_input_pr [OF ne, of 1000]
  from t [THEN conjunct1] d have
    "map openTime (percentileVals [examplePr 1 ''a'' 100 105, examplePr 2 ''b'' 200 201,
                                    examplePr 3 ''c'' 10 19, examplePr 4 ''d'' 300 301])
      = [5, 1, 9, 1]"
    by (simp only:)
  with ne p n show ?thesis by (intro conjI)
qed

section \<open>The display sort\<close>

text \<open>
  C10. The listing is sorted on a copy: at the end of \<open>main\<close> the array \<open>prs\<close>
  still holds the filtered pull requests in fetch order, the sorted array \<open>f\<close> is
  another array of the store, and the author block and the Time to merge block are those
  of the filtered list in fetch order; only the listing is that of the sorted list.
\<close>

theorem display_sort_on_copy:
  "cells (store (main args now (Inr nodes))) (prsRef (main args now (Inr nodes)))
     = filterByMergedAt (startDate args) (endDate args) nodes
   \<and> cells (store (main args now (Inr nodes))) (Suc (prsRef (main args now (Inr nodes))))
     = sort_key openTimeOf (filterByMergedAt (startDate args) (endDate args) nodes)
   \<and> printed (main args now (Inr nodes)) =
       infoBlock args (length (filterByMergedAt (startDate args) (endDate args) nodes))
       @ listing now (sort_key openTimeOf (filterByMergedAt (startDate args) (endDate args) nodes))
       @ authorBlock (filterByMergedAt (startDate args) (endDate args) nodes)
       @ (case mergeBlock now (filterByMergedAt (startDate args) (endDate args) nodes) of
            Inl e \<Rightarrow> [] | Inr timeToMerge \<Rightarrow> timeToMerge)"
  by (simp add: main_store main_printed Let_def)

theorem display_sort_on_copy_witness:
  "cells (store (main (exampleArgs 0 100) 1000
       (Inr [examplePr 1 ''b'' 0 9, examplePr 2 ''a'' 0 5])))
     (prsRef (main (exampleArgs 0 100) 1000
       (Inr [examplePr 1 ''b'' 0 9, examplePr 2 ''a'' 0 5])))
     = [examplePr 1 ''b'' 0 9, examplePr 2 ''a'' 0 5]
   \<and> cells (store (main (exampleArgs 0 100) 1000
       (Inr [examplePr 1 ''b'' 0 9, examplePr 2 ''a'' 0 5])))
     (Suc (prsRef (main (exampleArgs 0 100) 1000
       (Inr [examplePr 1 ''b'' 0 9, examplePr 2 ''a'' 0 5]))))
     = [examplePr 2 ''a'' 0 5, examplePr 1 ''b'' 0 9]"
  using display_sort_on_copy [of "exampleArgs 0 100" 1000
          "[examplePr 1 ''b'' 0 9, examplePr 2 ''a'' 0 5]"]
  by (simp add: filterByMergedAt_def isBefore_def isAfter_def openTimeOf_def
      exampleArgs_def examplePr_def)

section \<open>Count by author\<close>

text \<open>
  C4, as the code has it. For every filtered list whose author logins are not names of
  properties of \<open>Object.prototype\<close>, the rows of the author block give each distinct
  login with the number of pull requests of that login; the logins that are array
  indices come first, in ascending numeric order, and the other logins follow in the
  order in which each first occurs. When no login is an array index, the order is the
  order of first occurrence.
\<close>

theorem author_counts_in_key_order:
  assumes "\<forall>pr\<in>set prs. login (author pr) \<notin> set objectPrototype"
    and "logins = map (\<lambda>pr. login (author pr)) prs"
  shows "zip (keys (authors prs)) (values_of (authors prs))
           = map (\<lambda>l. (l, Num (of_nat (count_list logins l))))
               (sort_key toNat (filter isArrayIndex (firstOccurrences logins))
                @ filter (\<lambda>l. \<not> isArrayIndex l) (firstOccurrences logins))
         \<and> ((\<forall>l\<in>set logins. \<not> isArrayIndex l) \<longrightarrow> keys (authors prs) = firstOccurrences logins)"
proof -
  have z: "zip (keys (authors prs)) (values_of (authors prs)) = entries (authors prs)"
    by (simp add: keys_def values_of_def zip_map_fst_snd)
  have e: "entries (authors prs)
           = map (\<lambda>l. (l, Num (of_nat (count_list logins l))))
               (sort_key toNat (filter isArrayIndex (firstOccurrences logins))
                @ filter (\<lambda>l. \<not> isArrayIndex l) (firstOccurrences logins))"
    unfolding authors_tabulate [OF assms(1)] assms(2) by (rule entries_tabulate)
  have "keys (authors prs) = firstOccurrences logins" if "\<forall>l\<in>set logins. \<not> isArrayIndex l"
  proof -
    have "filter isArrayIndex (firstOccurrences logins) = []"
      "filter (\<lambda>l. \<not> isArrayIndex l) (firstOccurrences logins) = firstOccurrences logins"
      using that by (simp_all add: set_firstOccurrences filter_empty_conv)
    then show ?thesis
      by (simp add: keys_def e comp_def)
  qed
  with z e show ?thesis by simp
qed

theorem author_counts_in_key_order_witness:
  "map (\<lambda>pr. login (author pr))
     [examplePr 1 ''alice'' 0 1, examplePr 2 ''bob'' 0 1, examplePr 3 ''alice'' 0 1]
     = [''alice'', ''bob'', ''alice'']
   \<and> zip (keys (authors [examplePr 1 ''alice'' 0 1, examplePr 2 ''bob'' 0 1, examplePr 3 ''alice'' 0 1]))
         (values_of (authors [examplePr 1 ''alice'' 0 1, examplePr 2 ''bob'' 0 1,
                              examplePr 3 ''alice'' 0 1]))
     = [(''alice'', Num 2), (''bob'', Num 1)]
   \<and> keys (authors [examplePr 1 ''alice'' 0 1, examplePr 2 ''bob'' 0 1, examplePr 3 ''alice'' 0 1])
     = [''alice'', ''bob'']"
proof -
  let ?prs = "[examplePr 1 ''alice'' 0 1, examplePr 2 ''bob'' 0 1, examplePr 3 ''alice'' 0 1]"
  have h1: "\<forall>pr\<in>set ?prs. login (author pr) \<notin> set objectPrototype"
    by (simp add: examplePr_def objectPrototype_def)
  have h2: "[''alice'', ''bob'', ''alice''] = map (\<lambda>pr. login (author pr)) ?prs"
    by (simp add: examplePr_def)
  have h3: "\<forall>l\<in>set [''alice'', ''bob'', ''alice'']. \<not> isArrayIndex l"
    by (simp add: isArrayIndex_def isDigit_def)
  have f: "firstOccurrences [''alice'', ''bob'', ''alice''] = [''alice'', ''bob'']"
    by (simp add: firstOccurrences_def)
  note t = author_counts_in_key_order [OF h1 h2]
  have a: "zip (keys (authors ?prs)) (values_of (authors ?prs)) = [(''alice'', Num 2), (''bob'', Num 1)]"
    unfolding t [THEN conjunct1] f by (simp add: isArrayIndex_def isDigit_def)
  have b: "keys (authors ?prs) = [''alice'', ''bob'']"
    using t [THEN conjunct2] h3 f by simp
  from h2 [symmetric] a b show ?thesis by (intro conjI)
qed

theorem author_order_not_first_seen:
  "map (\<lambda>pr. login (author pr)) [examplePr 1 ''b'' 0 1, examplePr 2 ''1'' 0 1] = [''b'', ''1'']
   \<and> firstOccurrences [''b'', ''1''] = [''b'', ''1'']
   \<and> zip (keys (authors [examplePr 1 ''b'' 0 1, examplePr 2 ''1'' 0 1]))
         (values_of (authors [examplePr 1 ''b'' 0 1, examplePr 2 ''1'' 0 1]))
     = [(''1'', Num 1), (''b'', Num 1)]
   \<and> keys (authors [examplePr 1 ''b'' 0 1, examplePr 2 ''1'' 0 1])
       \<noteq> firstOccurrences (map (\<lambda>pr. login (author pr))
                             [examplePr 1 ''b'' 0 1, examplePr 2 ''1'' 0 1])"
  by (simp add: examplePr_def authors_def get_def put_def objectPrototype_def keys_def
      values_of_def entries_def isArrayIndex_def isDigit_def toNat_def firstOccurrences_def)

text \<open>
  A login that names a property of \<open>Object.prototype\<close> is outside the statement
  above: the first read finds the inherited function, which is truthy, and the increment
  stores \<open>NaN\<close>.
\<close>

lemma inherited_name_count:
  "zip (keys (authors [examplePr 1 ''constructor'' 0 1]))
       (values_of (authors [examplePr 1 ''constructor'' 0 1]))
     = [(''constructor'', NaN)]"
  by (simp add: examplePr_def authors_def get_def put_def objectPrototype_def keys_def
      values_of_def entries_def isArrayIndex_def isDigit_def)

end
